theory Spec2Isabelle
  imports Complex_Main
begin

section \<open>Kinematic arm simulation: the solver and its driver\<close>

text \<open>
  The notebook keeps its state in module-level variables and in two kinds of
  objects: Python lists (\<open>link_lengths\<close>, replaced wholesale, never mutated in
  place) and numpy arrays of angles (mutated in place by the solver and copied
  by \<open>angles.copy()\<close>). Arrays therefore live in an explicit store: a reference is
  a natural number, \<open>arr\<close> maps references to contents and \<open>fresh\<close> is the next
  unused reference. The target array is never written to, so a target is a pair
  of reals. Python floats (numpy float64) are modelled as the real
  numbers they approximate, \<open>np.cos\<close>, \<open>np.sin\<close> and \<open>np.linalg.norm\<close> as their
  mathematical counterparts. An uncaught exception is the \<open>Inl\<close> branch of a sum;
  what the globals and arrays hold at the moment of the exception is not kept.
\<close>

subsection \<open>Data model\<close>

datatype py_error = IndexError

type_synonym point = "real \<times> real"

type_synonym ref = nat

record state =
  num_links :: nat
  link_lengths :: "real list"
  angles :: ref
  target :: point
  reached_target :: bool
  movement_count :: nat
  arr :: "ref \<Rightarrow> real list"
  fresh :: ref

subsection \<open>numpy helpers\<close>

definition linalg_norm :: "point \<Rightarrow> real" where
  "linalg_norm p = sqrt ((fst p)\<^sup>2 + (snd p)\<^sup>2)"

definition radians :: "real \<Rightarrow> real" where
  "radians d = d * pi / 180"

text \<open>\<open>a.copy()\<close>: a new array with the contents of \<open>a\<close>.\<close>

definition ndarray_copy :: "ref \<Rightarrow> state \<Rightarrow> ref \<times> state" where
  "ndarray_copy a s = (fresh s, s\<lparr>arr := (arr s)(fresh s := arr s a), fresh := Suc (fresh s)\<rparr>)"

text \<open>\<open>a[i] += v\<close> for \<open>i\<close> from a \<open>range\<close>; an index past the end raises.\<close>

definition ndarray_iadd :: "ref \<Rightarrow> nat \<Rightarrow> real \<Rightarrow> state \<Rightarrow> py_error + state" where
  "ndarray_iadd a i v s =
     (if i < length (arr s a)
      then Inr (s\<lparr>arr := (arr s)(a := (arr s a)[i := arr s a ! i + v])\<rparr>)
      else Inl IndexError)"

text \<open>\<open>np.array(xs)\<close> and friends: a new array with the given contents.\<close>

definition ndarray_new :: "real list \<Rightarrow> state \<Rightarrow> ref \<times> state" where
  "ndarray_new xs s = (fresh s, s\<lparr>arr := (arr s)(fresh s := xs), fresh := Suc (fresh s)\<rparr>)"

subsection \<open>Forward kinematics\<close>

text \<open>
  \<^verbatim>\<open>
  def forward_kinematics(angles):
      x, y = [0], [0]
      for i in range(num_links):
          x.append(x[-1] + link_lengths[i] * np.cos(np.sum(angles[:i+1])))
          y.append(y[-1] + link_lengths[i] * np.sin(np.sum(angles[:i+1])))
      return x, y
  \<close>
  The globals \<open>num_links\<close> and \<open>link_lengths\<close> are parameters. \<open>link_lengths[i]\<close>
  raises past the end of the list; the slice \<open>angles[:i+1]\<close> never raises.
\<close>

fun fk_loop :: "real list \<Rightarrow> real list \<Rightarrow> nat list \<Rightarrow> real list \<times> real list
    \<Rightarrow> py_error + (real list \<times> real list)" where
  "fk_loop ll angs [] (x, y) = Inr (x, y)"
| "fk_loop ll angs (i # is) (x, y) =
     (if i < length ll
      then fk_loop ll angs is
             (x @ [last x + ll ! i * cos (sum_list (take (i + 1) angs))],
              y @ [last y + ll ! i * sin (sum_list (take (i + 1) angs))])
      else Inl IndexError)"

definition forward_kinematics :: "nat \<Rightarrow> real list \<Rightarrow> real list
    \<Rightarrow> py_error + (real list \<times> real list)" where
  "forward_kinematics nl ll angs = fk_loop ll angs [0..<nl] ([0], [0])"

subsection \<open>Link-length adaptation\<close>

text \<open>
  \<^verbatim>\<open>
  def optimize_link_lengths(target, angles):
      total_distance = np.linalg.norm(target)
      link_length = total_distance / num_links
      return [link_length] * num_links
  \<close>
\<close>

definition optimize_link_lengths :: "nat \<Rightarrow> point \<Rightarrow> real list \<Rightarrow> real list" where
  "optimize_link_lengths nl tgt angs =
     (let total_distance = linalg_norm tgt;
          link_length = total_distance / real nl
      in replicate nl link_length)"

subsection \<open>Inverse kinematics\<close>

text \<open>
  The body of \<open>for i in range(num_links)\<close>:
  \<^verbatim>\<open>
      angles_temp = angles.copy()
      angles_temp[i] += 0.01
      x_temp, y_temp = forward_kinematics(angles_temp)
      end_effector_temp = np.array([x_temp[-1], y_temp[-1]])
      gradient = (np.linalg.norm(end_effector_temp - target) - np.linalg.norm(error)) / 0.01
      angles[i] -= alpha * gradient
  \<close>
\<close>

definition joint_update :: "point \<Rightarrow> real \<Rightarrow> point \<Rightarrow> ref \<Rightarrow> nat \<Rightarrow> state \<Rightarrow> py_error + state" where
  "joint_update tgt alpha error a i s =
     (case ndarray_copy a s of (angles_temp, s1) \<Rightarrow>
      (case ndarray_iadd angles_temp i 0.01 s1 of
         Inl e \<Rightarrow> Inl e
       | Inr s2 \<Rightarrow>
          (case forward_kinematics (num_links s2) (link_lengths s2) (arr s2 angles_temp) of
             Inl e \<Rightarrow> Inl e
           | Inr (x_temp, y_temp) \<Rightarrow>
              (let end_effector_temp = (last x_temp, last y_temp);
                   gradient = (linalg_norm (fst end_effector_temp - fst tgt,
                                            snd end_effector_temp - snd tgt)
                               - linalg_norm error) / 0.01
               in ndarray_iadd a i (- (alpha * gradient)) s2))))"

fun joints_loop :: "point \<Rightarrow> real \<Rightarrow> point \<Rightarrow> ref \<Rightarrow> nat list \<Rightarrow> state \<Rightarrow> py_error + state" where
  "joints_loop tgt alpha error a [] s = Inr s"
| "joints_loop tgt alpha error a (i # is) s =
     (case joint_update tgt alpha error a i s of
        Inl e \<Rightarrow> Inl e
      | Inr s' \<Rightarrow> joints_loop tgt alpha error a is s')"

text \<open>
  One pass through the body of \<open>for _ in range(max_iters)\<close>; the boolean says
  whether the pass left the loop through \<open>break\<close>.
  \<^verbatim>\<open>
      x, y = forward_kinematics(angles)
      end_effector = np.array([x[-1], y[-1]])
      error = target - end_effector
      if np.linalg.norm(error) < 1e-1:
          reached_target = True
          break
      reached_target = False
      for i in range(num_links): ...
  \<close>
\<close>

definition ik_iteration :: "point \<Rightarrow> real \<Rightarrow> ref \<Rightarrow> state \<Rightarrow> py_error + (bool \<times> state)" where
  "ik_iteration tgt alpha a s =
     (case forward_kinematics (num_links s) (link_lengths s) (arr s a) of
        Inl e \<Rightarrow> Inl e
      | Inr (x, y) \<Rightarrow>
         (let end_effector = (last x, last y);
              error = (fst tgt - fst end_effector, snd tgt - snd end_effector)
          in if linalg_norm error < 0.1
             then Inr (True, s\<lparr>reached_target := True\<rparr>)
             else (case joints_loop tgt alpha error a [0..<num_links s]
                          (s\<lparr>reached_target := False\<rparr>) of
                     Inl e \<Rightarrow> Inl e
                   | Inr s' \<Rightarrow> Inr (False, s'))))"

fun ik_loop :: "point \<Rightarrow> real \<Rightarrow> ref \<Rightarrow> nat \<Rightarrow> state \<Rightarrow> py_error + state" where
  "ik_loop tgt alpha a 0 s = Inr s"
| "ik_loop tgt alpha a (Suc n) s =
     (case ik_iteration tgt alpha a s of
        Inl e \<Rightarrow> Inl e
      | Inr (True, s') \<Rightarrow> Inr s'
      | Inr (False, s') \<Rightarrow> ik_loop tgt alpha a n s')"

text \<open>
  \<^verbatim>\<open>
  def inverse_kinematics(target, angles, alpha=0.1, max_iters=100):
      global link_lengths, reached_target
      if target is None:
          return angles
      link_lengths = optimize_link_lengths(target, angles)
      for _ in range(max_iters): ...
      return angles
  \<close>
  The function returns the reference it was given, together with the globals
  and the store as it leaves them.
\<close>

definition inverse_kinematics :: "point option \<Rightarrow> ref \<Rightarrow> real \<Rightarrow> nat \<Rightarrow> state
    \<Rightarrow> py_error + (ref \<times> state)" where
  "inverse_kinematics tgt a alpha max_iters s =
     (case tgt of
        None \<Rightarrow> Inr (a, s)
      | Some t \<Rightarrow>
         (case ik_loop t alpha a max_iters
                 (s\<lparr>link_lengths := optimize_link_lengths (num_links s) t (arr s a)\<rparr>) of
            Inl e \<Rightarrow> Inl e
          | Inr s' \<Rightarrow> Inr (a, s')))"

subsection \<open>The driver\<close>

text \<open>
  \<^verbatim>\<open>
  def update(frame):
      global angles, reached_target, movement_count
      if not reached_target:
          angles = inverse_kinematics(target, angles)
          movement_count += 1
      x, y = forward_kinematics(angles)
      ...
  \<close>
  What follows in the source only hands \<open>x\<close>, \<open>y\<close>, the target and the counter
  to the plot; the model returns the joint positions with the state.
\<close>

definition update :: "nat \<Rightarrow> state \<Rightarrow> py_error + (state \<times> real list \<times> real list)" where
  "update frame s =
     (case (if \<not> reached_target s
            then (case inverse_kinematics (Some (target s)) (angles s) 0.1 100 s of
                    Inl e \<Rightarrow> Inl e
                  | Inr (a', s') \<Rightarrow>
                      Inr (s'\<lparr>angles := a', movement_count := movement_count s' + 1\<rparr>))
            else Inr s) of
        Inl e \<Rightarrow> Inl e
      | Inr s1 \<Rightarrow>
         (case forward_kinematics (num_links s1) (link_lengths s1) (arr s1 (angles s1)) of
            Inl e \<Rightarrow> Inl e
          | Inr (x, y) \<Rightarrow> Inr (s1, x, y)))"

text \<open>
  \<^verbatim>\<open>
  def update_num_links(val):
      global num_links, link_lengths, angles, target, reached_target, movement_count
      num_links = int(val)
      link_lengths = [2] * num_links
      angles = np.radians([45] * num_links)
      target = np.array([3, 1])
      reached_target = False
      movement_count = 0
      update(0)
  \<close>
  The slider delivers whole numbers from 2 to 5, so \<open>val\<close> is a natural number.
\<close>

definition update_num_links :: "nat \<Rightarrow> state \<Rightarrow> py_error + state" where
  "update_num_links val s =
     (let s1 = s\<lparr>num_links := val\<rparr>;
          s2 = s1\<lparr>link_lengths := replicate (num_links s1) 2\<rparr>
      in case ndarray_new (replicate (num_links s2) (radians 45)) s2 of (a, s3) \<Rightarrow>
         (let s4 = s3\<lparr>angles := a\<rparr>;
              s5 = s4\<lparr>target := (3, 1)\<rparr>;
              s6 = s5\<lparr>reached_target := False\<rparr>;
              s7 = s6\<lparr>movement_count := 0\<rparr>
          in case update 0 s7 of
               Inl e \<Rightarrow> Inl e
             | Inr (s', x, y) \<Rightarrow> Inr s'))"

text \<open>
  \<^verbatim>\<open>
  def on_click(event):
      global target, reached_target, movement_count
      if event.xdata is not None and event.ydata is not None:
          target = np.array([event.xdata, event.ydata])
          reached_target = False
          movement_count = 0
  \<close>
\<close>

definition on_click :: "real option \<Rightarrow> real option \<Rightarrow> state \<Rightarrow> state" where
  "on_click xdata ydata s =
     (case (xdata, ydata) of
        (Some px, Some py) \<Rightarrow> s\<lparr>target := (px, py), reached_target := False, movement_count := 0\<rparr>
      | _ \<Rightarrow> s)"

text \<open>The state the notebook's cells set up before the first tick.\<close>

definition initial_state :: state where
  "initial_state =
     \<lparr>num_links = 2, link_lengths = [2, 2], angles = 0, target = (3, 1),
      reached_target = False, movement_count = 0,
      arr = (\<lambda>_. [])(0 := [radians 45, radians 45]), fresh = 1\<rparr>"

subsection \<open>Specification functions\<close>

text \<open>
  The position of joint \<open>k\<close> in closed form: the sum of the first \<open>k\<close> link
  vectors, each at the cumulative orientation of its joint. Lemma
  \<open>forward_kinematics_closed\<close> below shows that these are the lists
  \<open>forward_kinematics\<close> returns.
\<close>

primrec joint_x :: "real list \<Rightarrow> real list \<Rightarrow> nat \<Rightarrow> real" where
  "joint_x ll angs 0 = 0"
| "joint_x ll angs (Suc k) = joint_x ll angs k + ll ! k * cos (sum_list (take (Suc k) angs))"

primrec joint_y :: "real list \<Rightarrow> real list \<Rightarrow> nat \<Rightarrow> real" where
  "joint_y ll angs 0 = 0"
| "joint_y ll angs (Suc k) = joint_y ll angs k + ll ! k * sin (sum_list (take (Suc k) angs))"

definition distance_to_target :: "nat \<Rightarrow> real list \<Rightarrow> point \<Rightarrow> real list \<Rightarrow> real" where
  "distance_to_target nl ll tgt angs =
     linalg_norm (fst tgt - joint_x ll angs nl, snd tgt - joint_y ll angs nl)"

definition finite_difference :: "nat \<Rightarrow> real list \<Rightarrow> point \<Rightarrow> real list \<Rightarrow> nat \<Rightarrow> real \<Rightarrow> real" where
  "finite_difference nl ll tgt angs i base =
     (distance_to_target nl ll tgt (angs[i := angs ! i + 0.01]) - base) / 0.01"

text \<open>
  \<open>distance_to_target\<close> is the norm of \<open>target - end_effector\<close> as the solver
  computes it (lemma \<open>distance_to_target_forward_kinematics\<close>); \<open>finite_difference\<close> is the quotient the solver calls \<open>gradient\<close>,
  for the configuration \<open>angs\<close> perturbed at joint \<open>i\<close> against the baseline
  distance \<open>base\<close>.
\<close>

subsection \<open>The angle arithmetic on plain lists\<close>

text \<open>
  What a call of the solver does to the angles, written without a store.
  \<open>angles_after_joint\<close> subtracts from entry \<open>i\<close> the step size times the quotient
  the solver computes for joint \<open>i\<close>; it is the only operation on the list. The
  perturbed configuration occurs inside \<open>finite_difference\<close> only, as the argument
  of a distance. \<open>angles_after_sweep\<close> runs the joints of one iteration in order,
  \<open>angles_after_loop\<close> runs up to \<open>n\<close> iterations and stops at the first one that
  starts within the tolerance. The solver of the notebook, with its copies and
  in-place writes, is compared with these functions below.
\<close>

definition angles_after_joint :: "nat \<Rightarrow> real list \<Rightarrow> point \<Rightarrow> real \<Rightarrow> real \<Rightarrow> nat
    \<Rightarrow> real list \<Rightarrow> real list" where
  "angles_after_joint nl ll tgt alpha base i angs =
     angs[i := angs ! i - alpha * finite_difference nl ll tgt angs i base]"

fun angles_after_sweep :: "nat \<Rightarrow> real list \<Rightarrow> point \<Rightarrow> real \<Rightarrow> real \<Rightarrow> nat list
    \<Rightarrow> real list \<Rightarrow> real list" where
  "angles_after_sweep nl ll tgt alpha base [] angs = angs"
| "angles_after_sweep nl ll tgt alpha base (i # is) angs =
     angles_after_sweep nl ll tgt alpha base is (angles_after_joint nl ll tgt alpha base i angs)"

fun angles_after_loop :: "nat \<Rightarrow> real list \<Rightarrow> point \<Rightarrow> real \<Rightarrow> nat \<Rightarrow> real list
    \<Rightarrow> real list" where
  "angles_after_loop nl ll tgt alpha 0 angs = angs"
| "angles_after_loop nl ll tgt alpha (Suc n) angs =
     (if distance_to_target nl ll tgt angs < 0.1 then angs
      else angles_after_loop nl ll tgt alpha n
             (angles_after_sweep nl ll tgt alpha (distance_to_target nl ll tgt angs) [0..<nl] angs))"

subsection \<open>Two concrete configurations\<close>

text \<open>
  A two-link arm with unit links and the target \<open>(2, 0)\<close>: stretched along the
  x axis it touches the target; with the first joint at a right angle and the
  second at \<open>-0.01\<close> it is far from it. For the second configuration,
  \<open>dist_at_start\<close> is the distance to the target, \<open>dist_joint0_perturbed\<close> the
  distance after adding \<open>delta\<close> to joint 0, and \<open>gradient0\<close> the resulting
  quotient for joint 0.
\<close>

definition delta :: real where
  "delta = 1 / 100"

definition dist_joint0_perturbed :: real where
  "dist_joint0_perturbed = sqrt ((2 + sin delta)\<^sup>2 + (1 + cos delta)\<^sup>2)"

definition dist_at_start :: real where
  "dist_at_start = sqrt ((2 - sin delta)\<^sup>2 + (1 + cos delta)\<^sup>2)"

definition gradient0 :: real where
  "gradient0 = (dist_joint0_perturbed - dist_at_start) / delta"

definition converged_state :: state where
  "converged_state =
     \<lparr>num_links = 2, link_lengths = [1, 1], angles = 0, target = (2, 0),
      reached_target = True, movement_count = 1,
      arr = (\<lambda>_. [])(0 := [0, 0]), fresh = 1\<rparr>"

definition seeking_state :: state where
  "seeking_state =
     \<lparr>num_links = 2, link_lengths = [1, 1], angles = 0, target = (2, 0),
      reached_target = False, movement_count = 0,
      arr = (\<lambda>_. [])(0 := [pi / 2, - (1 / 100)]), fresh = 1\<rparr>"

section \<open>Auxiliary lemmas\<close>

subsection \<open>Forward kinematics in closed form\<close>

lemma fk_loop_append:
  "fk_loop ll angs (is @ js) acc =
     (case fk_loop ll angs is acc of Inl e \<Rightarrow> Inl e | Inr acc' \<Rightarrow> fk_loop ll angs js acc')"
proof (induction "is" arbitrary: acc)
  case Nil
  show ?case by (cases acc) simp
next
  case (Cons i "is")
  show ?case by (cases acc) (simp add: Cons.IH)
qed

lemma forward_kinematics_closed:
  "n \<le> length ll \<Longrightarrow>
   forward_kinematics n ll angs =
     Inr (map (joint_x ll angs) [0..<Suc n], map (joint_y ll angs) [0..<Suc n])"
proof (induction n)
  case 0
  show ?case by (simp add: forward_kinematics_def)
next
  case (Suc n)
  then have IH: "fk_loop ll angs [0..<n] ([0], [0]) =
     Inr (map (joint_x ll angs) [0..<Suc n], map (joint_y ll angs) [0..<Suc n])"
    and lt: "n < length ll"
    by (simp_all add: forward_kinematics_def)
  have "fk_loop ll angs [0..<Suc n] ([0], [0]) =
        fk_loop ll angs [n] (map (joint_x ll angs) [0..<Suc n], map (joint_y ll angs) [0..<Suc n])"
    by (simp add: fk_loop_append IH del: upt_Suc map_append)
       (simp add: fk_loop_append IH)
  then show ?case using lt
    by (simp add: forward_kinematics_def)
qed

lemma optimize_link_lengths_length: "length (optimize_link_lengths nl t angs) = nl"
  by (simp add: optimize_link_lengths_def)

subsection \<open>The solver's loops\<close>

lemma linalg_norm_swap: "linalg_norm (a - c, b - e) = linalg_norm (c - a, e - b)"
  by (simp add: linalg_norm_def power2_commute)

lemma last_map_upt_Suc: "last (map f [0..<Suc n]) = f n"
  by simp

lemma distance_to_target_forward_kinematics:
  assumes "nl \<le> length ll"
  shows "\<exists>x y. forward_kinematics nl ll angs = Inr (x, y)
     \<and> distance_to_target nl ll tgt angs = linalg_norm (fst tgt - last x, snd tgt - last y)"
  using assms
  by (simp add: forward_kinematics_closed distance_to_target_def last_map_upt_Suc del: upt_Suc)

lemma joint_update_ok:
  assumes "a < fresh s" "i < length (arr s a)" "num_links s \<le> length (link_lengths s)"
  shows "joint_update tgt alpha error a i s =
     Inr (s\<lparr>arr := (arr s)(fresh s := (arr s a)[i := arr s a ! i + 0.01],
                           a := (arr s a)[i := arr s a ! i - alpha *
                                  finite_difference (num_links s) (link_lengths s) tgt (arr s a) i
                                    (linalg_norm error)]),
            fresh := Suc (fresh s)\<rparr>)"
proof -
  have ne: "a \<noteq> fresh s" using assms(1) by simp
  show ?thesis
    using assms ne
    by (simp add: joint_update_def ndarray_copy_def ndarray_iadd_def forward_kinematics_closed
        finite_difference_def distance_to_target_def linalg_norm_swap fun_upd_twist last_map_upt_Suc
        del: upt_Suc)
qed

lemma joints_loop_append:
  "joints_loop tgt alpha error a (is @ js) s =
     (case joints_loop tgt alpha error a is s of
        Inl e \<Rightarrow> Inl e
      | Inr s' \<Rightarrow> joints_loop tgt alpha error a js s')"
  by (induction "is" arbitrary: s) (simp_all split: sum.splits)

lemma joints_loop_upt:
  assumes "a < fresh s" "num_links s \<le> length (link_lengths s)"
  shows "n \<le> length (arr s a) \<Longrightarrow>
    \<exists>A. joints_loop tgt alpha error a [0..<n] s = Inr (s\<lparr>arr := A, fresh := fresh s + n\<rparr>)
      \<and> length (A a) = length (arr s a)
      \<and> drop n (A a) = drop n (arr s a)
      \<and> (\<forall>i<n. A a ! i = arr s a ! i - alpha *
            finite_difference (num_links s) (link_lengths s) tgt
              (take i (A a) @ drop i (arr s a)) i (linalg_norm error))
      \<and> (\<forall>r<fresh s. r \<noteq> a \<longrightarrow> A r = arr s r)"
proof (induction n)
  case 0
  have "s = s\<lparr>arr := arr s, fresh := fresh s + 0\<rparr>" by simp
  then show ?case by (intro exI[of _ "arr s"]) simp
next
  case (Suc n)
  then obtain A where
    run: "joints_loop tgt alpha error a [0..<n] s = Inr (s\<lparr>arr := A, fresh := fresh s + n\<rparr>)"
    and len: "length (A a) = length (arr s a)"
    and dr: "drop n (A a) = drop n (arr s a)"
    and upd: "\<forall>i<n. A a ! i = arr s a ! i - alpha *
            finite_difference (num_links s) (link_lengths s) tgt
              (take i (A a) @ drop i (arr s a)) i (linalg_norm error)"
    and frame: "\<forall>r<fresh s. r \<noteq> a \<longrightarrow> A r = arr s r"
    by auto
  let ?s = "s\<lparr>arr := A, fresh := fresh s + n\<rparr>"
  let ?g = "finite_difference (num_links s) (link_lengths s) tgt (A a) n (linalg_norm error)"
  let ?U = "(A a)[n := A a ! n - alpha * ?g]"
  let ?A' = "A(fresh s + n := (A a)[n := A a ! n + 0.01], a := ?U)"
  have n_lt: "n < length (arr s a)" using Suc.prems by simp
  have step: "joint_update tgt alpha error a n ?s = Inr (?s\<lparr>arr := ?A', fresh := Suc (fresh s + n)\<rparr>)"
    using joint_update_ok[of a ?s n tgt alpha error] assms n_lt len by simp
  have run': "joints_loop tgt alpha error a [0..<Suc n] s = Inr (s\<lparr>arr := ?A', fresh := fresh s + Suc n\<rparr>)"
    by (simp add: joints_loop_append run step)
  have Aa: "A a = take n (A a) @ drop n (arr s a)"
    using dr by (metis append_take_drop_id)
  have An: "A a ! n = arr s a ! n"
    using dr n_lt len by (metis hd_drop_conv_nth)
  have U_n: "?U ! n = arr s a ! n - alpha *
      finite_difference (num_links s) (link_lengths s) tgt
              (take n ?U @ drop n (arr s a)) n (linalg_norm error)"
    using n_lt len An Aa by simp
  have U_i: "?U ! i = arr s a ! i - alpha *
      finite_difference (num_links s) (link_lengths s) tgt
              (take i ?U @ drop i (arr s a)) i (linalg_norm error)" if "i < n" for i
    using that upd by simp
  have all: "\<forall>i<Suc n. ?A' a ! i = arr s a ! i - alpha *
            finite_difference (num_links s) (link_lengths s) tgt
              (take i (?A' a) @ drop i (arr s a)) i (linalg_norm error)"
    using U_n U_i by (auto simp: less_Suc_eq simp del: take_update_cancel)
  have "drop 1 (drop n (A a)) = drop 1 (drop n (arr s a))"
    using dr by simp
  then have "drop (Suc n) (A a) = drop (Suc n) (arr s a)"
    by simp
  then have dr': "drop (Suc n) (?A' a) = drop (Suc n) (arr s a)"
    by simp
  have frame': "\<forall>r<fresh s. r \<noteq> a \<longrightarrow> ?A' r = arr s r"
    using frame by simp
  have len': "length (?A' a) = length (arr s a)"
    using len by simp
  from run' len' dr' all frame' show ?case
    by blast
qed

lemma ik_iteration_break:
  assumes "num_links s \<le> length (link_lengths s)"
    "distance_to_target (num_links s) (link_lengths s) tgt (arr s a) < 0.1"
  shows "ik_iteration tgt alpha a s = Inr (True, s\<lparr>reached_target := True\<rparr>)"
  using assms
  by (simp add: ik_iteration_def forward_kinematics_closed last_map_upt_Suc
      distance_to_target_def del: upt_Suc)

lemma ik_iteration_continue:
  assumes "a < fresh s" "num_links s \<le> length (arr s a)"
    "num_links s \<le> length (link_lengths s)"
    "\<not> distance_to_target (num_links s) (link_lengths s) tgt (arr s a) < 0.1"
  shows "\<exists>A. ik_iteration tgt alpha a s =
        Inr (False, s\<lparr>reached_target := False, arr := A, fresh := fresh s + num_links s\<rparr>)
      \<and> length (A a) = length (arr s a)
      \<and> drop (num_links s) (A a) = drop (num_links s) (arr s a)
      \<and> (\<forall>i<num_links s. A a ! i = arr s a ! i - alpha *
            finite_difference (num_links s) (link_lengths s) tgt
              (take i (A a) @ drop i (arr s a)) i
              (distance_to_target (num_links s) (link_lengths s) tgt (arr s a)))
      \<and> (\<forall>r<fresh s. r \<noteq> a \<longrightarrow> A r = arr s r)"
proof -
  let ?s = "s\<lparr>reached_target := False\<rparr>"
  let ?err = "(fst tgt - joint_x (link_lengths s) (arr s a) (num_links s),
               snd tgt - joint_y (link_lengths s) (arr s a) (num_links s))"
  have "\<exists>A. joints_loop tgt alpha ?err a [0..<num_links ?s] ?s =
          Inr (?s\<lparr>arr := A, fresh := fresh ?s + num_links ?s\<rparr>)
      \<and> length (A a) = length (arr ?s a)
      \<and> drop (num_links ?s) (A a) = drop (num_links ?s) (arr ?s a)
      \<and> (\<forall>i<num_links ?s. A a ! i = arr ?s a ! i - alpha *
            finite_difference (num_links ?s) (link_lengths ?s) tgt
              (take i (A a) @ drop i (arr ?s a)) i (linalg_norm ?err))
      \<and> (\<forall>r<fresh ?s. r \<noteq> a \<longrightarrow> A r = arr ?s r)"
    using assms by (intro joints_loop_upt) simp_all
  then obtain A where
    run: "joints_loop tgt alpha ?err a [0..<num_links s] ?s =
          Inr (s\<lparr>reached_target := False, arr := A, fresh := fresh s + num_links s\<rparr>)"
    and rest: "length (A a) = length (arr s a)"
      "drop (num_links s) (A a) = drop (num_links s) (arr s a)"
      "\<forall>i<num_links s. A a ! i = arr s a ! i - alpha *
            finite_difference (num_links s) (link_lengths s) tgt
              (take i (A a) @ drop i (arr s a)) i
              (distance_to_target (num_links s) (link_lengths s) tgt (arr s a))"
      "\<forall>r<fresh s. r \<noteq> a \<longrightarrow> A r = arr s r"
    by (auto simp: distance_to_target_def)
  have "ik_iteration tgt alpha a s =
        Inr (False, s\<lparr>reached_target := False, arr := A, fresh := fresh s + num_links s\<rparr>)"
    using assms(3,4) run
    by (simp add: ik_iteration_def forward_kinematics_closed last_map_upt_Suc
        distance_to_target_def del: upt_Suc)
  with rest show ?thesis by blast
qed

lemma ik_loop_ok:
  assumes "a < fresh s" "num_links s \<le> length (arr s a)"
    "num_links s \<le> length (link_lengths s)"
  shows "\<exists>R A F. ik_loop tgt alpha a n s = Inr (s\<lparr>reached_target := R, arr := A, fresh := F\<rparr>)
      \<and> length (A a) = length (arr s a)
      \<and> fresh s \<le> F
      \<and> (\<forall>r<fresh s. r \<noteq> a \<longrightarrow> A r = arr s r)
      \<and> (0 < n \<longrightarrow> R \<longrightarrow>
            distance_to_target (num_links s) (link_lengths s) tgt (A a) < 0.1)"
  using assms
proof (induction n arbitrary: s)
  case 0
  have "s = s\<lparr>reached_target := reached_target s, arr := arr s, fresh := fresh s\<rparr>" by simp
  then have "ik_loop tgt alpha a 0 s =
      Inr (s\<lparr>reached_target := reached_target s, arr := arr s, fresh := fresh s\<rparr>)"
    by simp
  then show ?case by blast
next
  case (Suc n)
  show ?case
  proof (cases "distance_to_target (num_links s) (link_lengths s) tgt (arr s a) < 0.1")
    case True
    have "ik_loop tgt alpha a (Suc n) s =
        Inr (s\<lparr>reached_target := True, arr := arr s, fresh := fresh s\<rparr>)"
      using ik_iteration_break[OF Suc.prems(3) True] by simp
    with True show ?thesis by (intro exI[of _ True] exI[of _ "arr s"] exI[of _ "fresh s"]) simp
  next
    case False
    from ik_iteration_continue[OF Suc.prems False, of alpha] obtain A where
      it: "ik_iteration tgt alpha a s =
        Inr (False, s\<lparr>reached_target := False, arr := A, fresh := fresh s + num_links s\<rparr>)"
      and len: "length (A a) = length (arr s a)"
      and frame: "\<forall>r<fresh s. r \<noteq> a \<longrightarrow> A r = arr s r"
      by blast
    let ?s = "s\<lparr>reached_target := False, arr := A, fresh := fresh s + num_links s\<rparr>"
    have "\<exists>R A' F. ik_loop tgt alpha a n ?s = Inr (?s\<lparr>reached_target := R, arr := A', fresh := F\<rparr>)
      \<and> length (A' a) = length (arr ?s a)
      \<and> fresh ?s \<le> F
      \<and> (\<forall>r<fresh ?s. r \<noteq> a \<longrightarrow> A' r = arr ?s r)
      \<and> (0 < n \<longrightarrow> R \<longrightarrow>
            distance_to_target (num_links ?s) (link_lengths ?s) tgt (A' a) < 0.1)"
      using Suc.prems len by (intro Suc.IH) simp_all
    then obtain R A' F where
      run: "ik_loop tgt alpha a n ?s = Inr (s\<lparr>reached_target := R, arr := A', fresh := F\<rparr>)"
      and len': "length (A' a) = length (arr s a)"
      and F: "fresh s \<le> F"
      and frame': "\<forall>r<fresh s. r \<noteq> a \<longrightarrow> A' r = arr s r"
      and conv: "0 < n \<longrightarrow> R \<longrightarrow>
            distance_to_target (num_links s) (link_lengths s) tgt (A' a) < 0.1"
      using len frame by auto
    have R0: "n = 0 \<Longrightarrow> \<not> R"
      using run by (auto dest: arg_cong[where f=reached_target])
    have full: "ik_loop tgt alpha a (Suc n) s = Inr (s\<lparr>reached_target := R, arr := A', fresh := F\<rparr>)"
      using it run by simp
    have "0 < Suc n \<longrightarrow> R \<longrightarrow>
            distance_to_target (num_links s) (link_lengths s) tgt (A' a) < 0.1"
      using conv R0 by (cases n) auto
    with full len' F frame' show ?thesis by blast
  qed
qed

subsection \<open>The solver against the plain-list arithmetic\<close>

lemma length_angles_after_joint:
  "length (angles_after_joint nl ll tgt alpha base i angs) = length angs"
  by (simp add: angles_after_joint_def)

lemma length_angles_after_sweep:
  "length (angles_after_sweep nl ll tgt alpha base is angs) = length angs"
  by (induction "is" arbitrary: angs) (simp_all add: length_angles_after_joint)

lemma joints_loop_refines:
  assumes "a < fresh s" "num_links s \<le> length (link_lengths s)"
    "\<forall>i\<in>set is. i < length (arr s a)"
  shows "\<exists>A. joints_loop tgt alpha error a is s = Inr (s\<lparr>arr := A, fresh := fresh s + length is\<rparr>)
      \<and> A a = angles_after_sweep (num_links s) (link_lengths s) tgt alpha (linalg_norm error) is
                (arr s a)
      \<and> (\<forall>r<fresh s. r \<noteq> a \<longrightarrow> A r = arr s r)"
  using assms
proof (induction "is" arbitrary: s)
  case Nil
  have "s = s\<lparr>arr := arr s, fresh := fresh s + length ([]::nat list)\<rparr>" by simp
  then have "joints_loop tgt alpha error a [] s =
      Inr (s\<lparr>arr := arr s, fresh := fresh s + length ([]::nat list)\<rparr>)"
    by simp
  then show ?case by (intro exI[of _ "arr s"]) simp
next
  case (Cons i "is")
  let ?U = "angles_after_joint (num_links s) (link_lengths s) tgt alpha (linalg_norm error) i (arr s a)"
  let ?s1 = "s\<lparr>arr := (arr s)(fresh s := (arr s a)[i := arr s a ! i + 0.01], a := ?U),
               fresh := Suc (fresh s)\<rparr>"
  have i: "i < length (arr s a)" using Cons.prems(3) by simp
  have step: "joint_update tgt alpha error a i s = Inr ?s1"
    using joint_update_ok[OF Cons.prems(1) i Cons.prems(2), of tgt alpha error]
    by (simp add: angles_after_joint_def)
  have "\<exists>A. joints_loop tgt alpha error a is ?s1 = Inr (?s1\<lparr>arr := A, fresh := fresh ?s1 + length is\<rparr>)
      \<and> A a = angles_after_sweep (num_links ?s1) (link_lengths ?s1) tgt alpha (linalg_norm error) is
                (arr ?s1 a)
      \<and> (\<forall>r<fresh ?s1. r \<noteq> a \<longrightarrow> A r = arr ?s1 r)"
    using Cons.prems by (intro Cons.IH) (simp_all add: length_angles_after_joint)
  then obtain A where
    run: "joints_loop tgt alpha error a is ?s1 = Inr (s\<lparr>arr := A, fresh := fresh s + length (i # is)\<rparr>)"
    and ref: "A a = angles_after_sweep (num_links s) (link_lengths s) tgt alpha (linalg_norm error) is ?U"
    and frame: "\<forall>r<Suc (fresh s). r \<noteq> a \<longrightarrow> A r = arr ?s1 r"
    by auto
  have run': "joints_loop tgt alpha error a (i # is) s =
      Inr (s\<lparr>arr := A, fresh := fresh s + length (i # is)\<rparr>)"
    using step run by simp
  have ref': "A a = angles_after_sweep (num_links s) (link_lengths s) tgt alpha (linalg_norm error)
      (i # is) (arr s a)"
    using ref by simp
  have frame': "\<forall>r<fresh s. r \<noteq> a \<longrightarrow> A r = arr s r"
    using frame by auto
  from run' ref' frame' show ?case by blast
qed

lemma ik_loop_refines:
  assumes "a < fresh s" "num_links s \<le> length (arr s a)"
    "num_links s \<le> length (link_lengths s)"
  shows "\<exists>R A F. ik_loop tgt alpha a n s = Inr (s\<lparr>reached_target := R, arr := A, fresh := F\<rparr>)
      \<and> A a = angles_after_loop (num_links s) (link_lengths s) tgt alpha n (arr s a)
      \<and> fresh s \<le> F
      \<and> (\<forall>r<fresh s. r \<noteq> a \<longrightarrow> A r = arr s r)"
  using assms
proof (induction n arbitrary: s)
  case 0
  have "s = s\<lparr>reached_target := reached_target s, arr := arr s, fresh := fresh s\<rparr>" by simp
  then have "ik_loop tgt alpha a 0 s =
      Inr (s\<lparr>reached_target := reached_target s, arr := arr s, fresh := fresh s\<rparr>)"
    by simp
  then show ?case by (intro exI[of _ "reached_target s"] exI[of _ "arr s"] exI[of _ "fresh s"]) simp
next
  case (Suc n)
  let ?d = "distance_to_target (num_links s) (link_lengths s) tgt (arr s a)"
  show ?case
  proof (cases "?d < 0.1")
    case True
    have "ik_loop tgt alpha a (Suc n) s =
        Inr (s\<lparr>reached_target := True, arr := arr s, fresh := fresh s\<rparr>)"
      using ik_iteration_break[OF Suc.prems(3) True] by simp
    with True show ?thesis
      by (intro exI[of _ True] exI[of _ "arr s"] exI[of _ "fresh s"]) simp
  next
    case False
    let ?s0 = "s\<lparr>reached_target := False\<rparr>"
    let ?err = "(fst tgt - joint_x (link_lengths s) (arr s a) (num_links s),
                 snd tgt - joint_y (link_lengths s) (arr s a) (num_links s))"
    have "\<exists>A. joints_loop tgt alpha ?err a [0..<num_links ?s0] ?s0 =
          Inr (?s0\<lparr>arr := A, fresh := fresh ?s0 + length [0..<num_links ?s0]\<rparr>)
      \<and> A a = angles_after_sweep (num_links ?s0) (link_lengths ?s0) tgt alpha (linalg_norm ?err)
                [0..<num_links ?s0] (arr ?s0 a)
      \<and> (\<forall>r<fresh ?s0. r \<noteq> a \<longrightarrow> A r = arr ?s0 r)"
      using Suc.prems by (intro joints_loop_refines) simp_all
    then obtain A where
      sweep: "joints_loop tgt alpha ?err a [0..<num_links s] ?s0 =
          Inr (s\<lparr>reached_target := False, arr := A, fresh := fresh s + num_links s\<rparr>)"
      and ref: "A a = angles_after_sweep (num_links s) (link_lengths s) tgt alpha ?d
                [0..<num_links s] (arr s a)"
      and frame: "\<forall>r<fresh s. r \<noteq> a \<longrightarrow> A r = arr s r"
      by (auto simp: distance_to_target_def)
    let ?s1 = "s\<lparr>reached_target := False, arr := A, fresh := fresh s + num_links s\<rparr>"
    have it: "ik_iteration tgt alpha a s = Inr (False, ?s1)"
      using Suc.prems(3) False sweep
      by (simp add: ik_iteration_def forward_kinematics_closed last_map_upt_Suc
          distance_to_target_def del: upt_Suc)
    have len: "length (A a) = length (arr s a)"
      using ref by (simp add: length_angles_after_sweep)
    have "\<exists>R A' F. ik_loop tgt alpha a n ?s1 = Inr (?s1\<lparr>reached_target := R, arr := A', fresh := F\<rparr>)
      \<and> A' a = angles_after_loop (num_links ?s1) (link_lengths ?s1) tgt alpha n (arr ?s1 a)
      \<and> fresh ?s1 \<le> F
      \<and> (\<forall>r<fresh ?s1. r \<noteq> a \<longrightarrow> A' r = arr ?s1 r)"
      using Suc.prems len by (intro Suc.IH) simp_all
    then obtain R A' F where
      run: "ik_loop tgt alpha a n ?s1 = Inr (s\<lparr>reached_target := R, arr := A', fresh := F\<rparr>)"
      and ref': "A' a = angles_after_loop (num_links s) (link_lengths s) tgt alpha n (A a)"
      and F: "fresh s \<le> F"
      and frame': "\<forall>r<fresh s. r \<noteq> a \<longrightarrow> A' r = arr s r"
      using frame by auto
    have full: "ik_loop tgt alpha a (Suc n) s = Inr (s\<lparr>reached_target := R, arr := A', fresh := F\<rparr>)"
      using it run by simp
    have "A' a = angles_after_loop (num_links s) (link_lengths s) tgt alpha (Suc n) (arr s a)"
      using ref' ref False by simp
    with full F frame' show ?thesis by blast
  qed
qed

lemma angles_after_sweep_zero_step:
  "angles_after_sweep nl ll tgt 0 base is angs = angs"
  by (induction "is" arbitrary: angs) (simp_all add: angles_after_joint_def)

lemma angles_after_loop_zero_step:
  "angles_after_loop nl ll tgt 0 n angs = angs"
  by (induction n arbitrary: angs) (simp_all add: angles_after_sweep_zero_step)

lemma inverse_kinematics_refines:
  assumes "a < fresh s" "num_links s \<le> length (arr s a)"
  shows "\<exists>s'. inverse_kinematics (Some tgt) a alpha max_iters s = Inr (a, s')
     \<and> arr s' a = angles_after_loop (num_links s)
                     (optimize_link_lengths (num_links s) tgt (arr s a)) tgt alpha max_iters
                     (arr s a)
     \<and> (\<forall>r<fresh s. r \<noteq> a \<longrightarrow> arr s' r = arr s r)"
proof -
  let ?s = "s\<lparr>link_lengths := optimize_link_lengths (num_links s) tgt (arr s a)\<rparr>"
  have "\<exists>R A F. ik_loop tgt alpha a max_iters ?s = Inr (?s\<lparr>reached_target := R, arr := A, fresh := F\<rparr>)
      \<and> A a = angles_after_loop (num_links ?s) (link_lengths ?s) tgt alpha max_iters (arr ?s a)
      \<and> fresh ?s \<le> F
      \<and> (\<forall>r<fresh ?s. r \<noteq> a \<longrightarrow> A r = arr ?s r)"
    using assms by (intro ik_loop_refines) (simp_all add: optimize_link_lengths_length)
  then obtain R A F where
    "ik_loop tgt alpha a max_iters ?s = Inr (?s\<lparr>reached_target := R, arr := A, fresh := F\<rparr>)"
    "A a = angles_after_loop (num_links s) (optimize_link_lengths (num_links s) tgt (arr s a))
             tgt alpha max_iters (arr s a)"
    "\<forall>r<fresh s. r \<noteq> a \<longrightarrow> A r = arr s r"
    by auto
  then show ?thesis by (simp add: inverse_kinematics_def)
qed

subsection \<open>Distances of the two-link arm with unit links\<close>

lemma distance_two_unit_links:
  "distance_to_target 2 [1, 1] (2, 0) [p, q] =
     sqrt ((2 - (cos p + cos (p + q)))\<^sup>2 + (sin p + sin (p + q))\<^sup>2)"
proof -
  have "(- a - b)\<^sup>2 = (a + b)\<^sup>2" for a b :: real
    by (simp add: power2_eq_square algebra_simps)
  then show ?thesis
    by (simp add: distance_to_target_def linalg_norm_def numeral_2_eq_2)
qed

lemma optimize_link_lengths_2_0: "optimize_link_lengths 2 (2, 0) angs = [1, 1]"
  by (simp add: optimize_link_lengths_def linalg_norm_def numeral_2_eq_2)

lemma distance_straight: "distance_to_target 2 [1, 1] (2, 0) [0, 0] = 0"
  by (simp add: distance_two_unit_links)

lemma sin_delta: "0 < sin delta" "sin delta \<le> delta"
proof -
  have "delta < pi" using pi_ge_two by (simp add: delta_def)
  then show "0 < sin delta" by (intro sin_gt_zero) (simp_all add: delta_def)
  show "sin delta \<le> delta" by (intro sin_x_le_x) (simp add: delta_def)
qed

lemma distance_joint0_perturbed:
  "distance_to_target 2 [1, 1] (2, 0) [pi / 2 + delta, - delta] = dist_joint0_perturbed"
  by (simp add: distance_two_unit_links dist_joint0_perturbed_def cos_add sin_add add.commute)

lemma distance_at_start:
  "distance_to_target 2 [1, 1] (2, 0) [pi / 2, - delta] = dist_at_start"
  by (simp add: distance_two_unit_links dist_at_start_def cos_add sin_add cos_diff sin_diff add.commute)

lemma dist_at_start_ge_1: "1 \<le> dist_at_start"
proof -
  have "sin delta \<le> 1" by simp
  then have "1 \<le> 2 - sin delta" by simp
  then have "1\<^sup>2 \<le> (2 - sin delta)\<^sup>2" by (intro power_mono) simp_all
  then have "1 \<le> (2 - sin delta)\<^sup>2 + (1 + cos delta)\<^sup>2" by (simp add: add_increasing2)
  then show ?thesis unfolding dist_at_start_def by simp
qed

lemma start_less_perturbed: "dist_at_start < dist_joint0_perturbed"
proof -
  have "(2 + sin delta)\<^sup>2 - (2 - sin delta)\<^sup>2 = 8 * sin delta" by (simp add: power2_eq_square algebra_simps)
  then have "(2 - sin delta)\<^sup>2 < (2 + sin delta)\<^sup>2" using sin_delta(1) by linarith
  then show ?thesis unfolding dist_joint0_perturbed_def dist_at_start_def by simp
qed

lemma perturbed_le_start: "dist_joint0_perturbed \<le> dist_at_start + 4 * delta"
proof -
  have B: "dist_at_start\<^sup>2 = (2 - sin delta)\<^sup>2 + (1 + cos delta)\<^sup>2"
    unfolding dist_at_start_def by (simp add: add_nonneg_nonneg)
  have "(2 + sin delta)\<^sup>2 - (2 - sin delta)\<^sup>2 = 8 * sin delta" by (simp add: power2_eq_square algebra_simps)
  then have "(2 + sin delta)\<^sup>2 + (1 + cos delta)\<^sup>2 = dist_at_start\<^sup>2 + 8 * sin delta" using B by simp
  also have "\<dots> \<le> dist_at_start\<^sup>2 + 8 * delta" using sin_delta(2) by simp
  also have "\<dots> \<le> dist_at_start\<^sup>2 + 8 * delta * dist_at_start + 16 * delta\<^sup>2"
  proof -
    have "8 * delta * 1 \<le> 8 * delta * dist_at_start" using dist_at_start_ge_1 by (intro mult_left_mono) (simp_all add: delta_def)
    moreover have "0 \<le> 16 * delta\<^sup>2" by simp
    ultimately show ?thesis by linarith
  qed
  also have "\<dots> = (dist_at_start + 4 * delta)\<^sup>2" by (simp add: power2_eq_square algebra_simps)
  finally have "(2 + sin delta)\<^sup>2 + (1 + cos delta)\<^sup>2 \<le> (dist_at_start + 4 * delta)\<^sup>2" .
  moreover have "0 \<le> dist_at_start + 4 * delta" using dist_at_start_ge_1 by (simp add: delta_def)
  ultimately show ?thesis unfolding dist_joint0_perturbed_def by (simp add: real_le_lsqrt)
qed

lemma gradient0_bounds: "0 < gradient0" "gradient0 \<le> 4"
proof -
  show "0 < gradient0" using start_less_perturbed by (simp add: gradient0_def delta_def)
  have "dist_joint0_perturbed - dist_at_start \<le> 4 * delta" using perturbed_le_start by simp
  then show "gradient0 \<le> 4" by (simp add: gradient0_def delta_def)
qed

lemma cos_joint0_updated: "0 < cos (pi / 2 - 0.1 * gradient0)"
proof (rule cos_gt_zero_pi)
  have "0.1 * gradient0 < pi" using gradient0_bounds(2) pi_ge_two by simp
  then show "- (pi / 2) < pi / 2 - 0.1 * gradient0" by simp
  show "pi / 2 - 0.1 * gradient0 < pi / 2" using gradient0_bounds(1) by simp
qed

lemma distance_joint1_straight:
  "distance_to_target 2 [1, 1] (2, 0) [p, 0] = sqrt (8 - 8 * cos p)"
proof -
  have alg: "(2 - (c + c))\<^sup>2 + (s + s)\<^sup>2 = 8 - 8 * c" if "c\<^sup>2 + s\<^sup>2 = 1" for c s :: real
  proof -
    have "(2 - (c + c))\<^sup>2 = 4 - 8 * c + 4 * c\<^sup>2" "(s + s)\<^sup>2 = 4 * s\<^sup>2"
      by (simp_all add: power2_eq_square algebra_simps)
    with that show ?thesis by linarith
  qed
  have "(2 - (cos p + cos p))\<^sup>2 + (sin p + sin p)\<^sup>2 = 8 - 8 * cos p"
    by (rule alg) simp
  then show ?thesis by (simp add: distance_two_unit_links)
qed

lemma distance_joint1_differs:
  "distance_to_target 2 [1, 1] (2, 0) [pi / 2 - 0.1 * gradient0, 0] \<noteq>
   distance_to_target 2 [1, 1] (2, 0) [pi / 2, 0]"
  using cos_joint0_updated by (simp add: distance_joint1_straight)

lemma distance_two_unit_links_squared:
  "(distance_to_target 2 [1, 1] (2, 0) [p, q])\<^sup>2 = 6 + 2 * cos q - 4 * (cos p + cos (p + q))"
proof -
  have alg: "(2 - (c0 + c1))\<^sup>2 + (s0 + s1)\<^sup>2 = 6 + 2 * (c1 * c0 + s1 * s0) - 4 * (c0 + c1)"
    if "c0\<^sup>2 + s0\<^sup>2 = 1" "c1\<^sup>2 + s1\<^sup>2 = 1" for c0 c1 s0 s1 :: real
  proof -
    have "(2 - (c0 + c1))\<^sup>2 + (s0 + s1)\<^sup>2 =
        4 - 4 * (c0 + c1) + (c0\<^sup>2 + s0\<^sup>2) + (c1\<^sup>2 + s1\<^sup>2) + 2 * (c1 * c0 + s1 * s0)"
      by (simp add: power2_eq_square algebra_simps)
    with that show ?thesis by simp
  qed
  have "cos q = cos (p + q) * cos p + sin (p + q) * sin p"
    using cos_diff[of "p + q" p] by simp
  then have "(2 - (cos p + cos (p + q)))\<^sup>2 + (sin p + sin (p + q))\<^sup>2 =
      6 + 2 * cos q - 4 * (cos p + cos (p + q))"
    using alg[of "cos p" "sin p" "cos (p + q)" "sin (p + q)"] by simp
  moreover have "0 \<le> (2 - (cos p + cos (p + q)))\<^sup>2 + (sin p + sin (p + q))\<^sup>2"
    by simp
  ultimately show ?thesis
    by (simp add: distance_two_unit_links)
qed

lemma distance_joint0_moved_less:
  assumes "0 < e" "e \<le> 4 / 10"
  shows "distance_to_target 2 [1, 1] (2, 0) [pi / 2 - e, - delta] < dist_at_start"
proof -
  have half: "1 \<le> pi / 2" using pi_ge_two by simp
  have "0 < sin e" using assms half by (intro sin_gt_zero) simp_all
  moreover have "sin delta \<le> sin (e + delta)"
    using assms half by (intro sin_monotone_2pi_le) (simp_all add: delta_def)
  ultimately have gt: "sin delta < sin e + sin (e + delta)" by simp
  have new: "(distance_to_target 2 [1, 1] (2, 0) [pi / 2 - e, - delta])\<^sup>2 =
      6 + 2 * cos delta - 4 * (sin e + sin (e + delta))"
  proof -
    have "cos (pi / 2 - e) = sin e"
      using sin_cos_eq[of e] by simp
    moreover have "cos (pi / 2 - e + - delta) = sin (e + delta)"
      using sin_cos_eq[of "e + delta"] by (simp add: algebra_simps)
    ultimately have "cos (pi / 2 - e) = sin e" "cos (pi / 2 - e + - delta) = sin (e + delta)"
      by simp_all
    then show ?thesis by (simp add: distance_two_unit_links_squared)
  qed
  have old: "dist_at_start\<^sup>2 = 6 + 2 * cos delta - 4 * sin delta"
  proof -
    have "cos (pi / 2 + - delta) = sin delta"
      using sin_cos_eq[of delta] by simp
    then show ?thesis
      using distance_two_unit_links_squared[of "pi / 2" "- delta"]
      by (simp add: distance_at_start)
  qed
  have "(distance_to_target 2 [1, 1] (2, 0) [pi / 2 - e, - delta])\<^sup>2 < dist_at_start\<^sup>2"
    using gt by (simp add: new old)
  moreover have "0 \<le> dist_at_start" using dist_at_start_ge_1 by simp
  ultimately show ?thesis by (rule power2_less_imp_less)
qed

lemma distance_current_baseline_differs:
  "distance_to_target 2 [1, 1] (2, 0) [pi / 2 - 0.1 * gradient0, - (1 / 100)] \<noteq> dist_at_start"
proof -
  have "0 < 0.1 * gradient0" "0.1 * gradient0 \<le> 4 / 10"
    using gradient0_bounds by simp_all
  from distance_joint0_moved_less[OF this] show ?thesis
    by (simp add: delta_def)
qed

subsection \<open>Zero-length links\<close>

lemma joint_zero_links:
  "k \<le> N \<Longrightarrow> joint_x (replicate N 0) angs k = 0 \<and> joint_y (replicate N 0) angs k = 0"
  by (induction k) simp_all

lemma map_const_upt: "(\<And>k. k < n \<Longrightarrow> f k = c) \<Longrightarrow> map f [0..<n] = replicate n c"
  by (rule nth_equalityI) simp_all

subsection \<open>One iteration from the seeking configuration\<close>

lemma seeking_state_distance:
  "distance_to_target 2 [1, 1] (2, 0) [pi / 2, - (1 / 100)] = dist_at_start"
  using distance_at_start by (simp add: delta_def)

lemma seeking_state_far:
  "\<not> distance_to_target (num_links seeking_state) (link_lengths seeking_state) (2, 0)
        (arr seeking_state 0) < 0.1"
  using dist_at_start_ge_1 by (simp add: seeking_state_def seeking_state_distance)

lemma list_of_length_2: "length xs = 2 \<Longrightarrow> xs = [xs ! 0, xs ! 1]"
  by (cases xs; cases "tl xs") auto

lemma seeking_state_iteration:
  "\<exists>s'. ik_iteration (2, 0) 0.1 0 seeking_state = Inr (False, s')
     \<and> arr s' 0 =
         [pi / 2 - 0.1 * gradient0,
          - (1 / 100) - 0.1 *
            ((distance_to_target 2 [1, 1] (2, 0) [pi / 2 - 0.1 * gradient0, 0] - dist_at_start)
              / 0.01)]"
proof -
  let ?old = "[pi / 2, - (1 / 100) :: real]"
  have h: "(0::nat) < fresh seeking_state" "num_links seeking_state \<le> length (arr seeking_state 0)"
    "num_links seeking_state \<le> length (link_lengths seeking_state)"
    by (simp_all add: seeking_state_def)
  from ik_iteration_continue[OF h seeking_state_far, of "0.1"] obtain A where
    run: "ik_iteration (2, 0) 0.1 0 seeking_state =
        Inr (False, seeking_state\<lparr>reached_target := False, arr := A,
               fresh := fresh seeking_state + num_links seeking_state\<rparr>)"
    and len: "length (A 0) = length (arr seeking_state 0)"
    and upd: "\<forall>i<num_links seeking_state. A 0 ! i = arr seeking_state 0 ! i - 0.1 *
            finite_difference (num_links seeking_state) (link_lengths seeking_state) (2, 0)
              (take i (A 0) @ drop i (arr seeking_state 0)) i
              (distance_to_target (num_links seeking_state) (link_lengths seeking_state) (2, 0)
                 (arr seeking_state 0))"
    by blast
  have len2: "length (A 0) = 2" using len by (simp add: seeking_state_def)
  have upd': "\<forall>i<2. A 0 ! i = ?old ! i - 0.1 *
        finite_difference 2 [1, 1] (2, 0) (take i (A 0) @ drop i ?old) i dist_at_start"
    using upd by (simp add: seeking_state_def seeking_state_distance)
  have "(0::nat) < 2" by simp
  from upd'[rule_format, OF this]
  have "A 0 ! 0 = pi / 2 - 0.1 * finite_difference 2 [1, 1] (2, 0) ?old 0 dist_at_start"
    by simp
  also have "finite_difference 2 [1, 1] (2, 0) ?old 0 dist_at_start = gradient0"
    using distance_joint0_perturbed
    by (simp add: finite_difference_def gradient0_def delta_def)
  finally have new0: "A 0 ! 0 = pi / 2 - 0.1 * gradient0" .
  have t1: "take (Suc 0) (A 0) = [A 0 ! 0]"
    using list_of_length_2[OF len2] by (metis take0 take_Suc_Cons)
  have "(1::nat) < 2" by simp
  from upd'[rule_format, OF this]
  have "A 0 ! 1 = - (1 / 100) - 0.1 *
      finite_difference 2 [1, 1] (2, 0) [A 0 ! 0, - (1 / 100)] 1 dist_at_start"
    by (simp add: t1)
  then have new1: "A 0 ! 1 = - (1 / 100) - 0.1 *
      ((distance_to_target 2 [1, 1] (2, 0) [pi / 2 - 0.1 * gradient0, 0] - dist_at_start) / 0.01)"
    by (simp add: finite_difference_def new0)
  have "A 0 = [A 0 ! 0, A 0 ! 1]" by (rule list_of_length_2[OF len2])
  with new0 new1 have "A 0 = [pi / 2 - 0.1 * gradient0,
          - (1 / 100) - 0.1 *
            ((distance_to_target 2 [1, 1] (2, 0) [pi / 2 - 0.1 * gradient0, 0] - dist_at_start)
              / 0.01)]"
    by simp
  with run show ?thesis by simp
qed

subsection \<open>The joint-count handler\<close>

lemma update_num_links_result:
  "\<exists>R A F. update_num_links val s =
       Inr (s\<lparr>num_links := val,
              link_lengths := replicate val (linalg_norm (3, 1) / real val),
              angles := fresh s, target := (3, 1), reached_target := R,
              movement_count := 1, arr := A, fresh := F\<rparr>)
     \<and> length (A (fresh s)) = val
     \<and> (R \<longrightarrow> distance_to_target val (replicate val (linalg_norm (3, 1) / real val)) (3, 1)
                 (A (fresh s)) < 0.1)"
proof -
  let ?a = "fresh s"
  let ?init = "replicate val (radians 45)"
  let ?ll = "replicate val (linalg_norm (3, 1) / real val)"
  let ?s7 = "s\<lparr>num_links := val, link_lengths := replicate val 2,
               arr := (arr s)(?a := ?init), fresh := Suc ?a, angles := ?a,
               target := (3, 1), reached_target := False, movement_count := 0\<rparr>"
  let ?s8 = "?s7\<lparr>link_lengths := ?ll\<rparr>"
  have "\<exists>R A F. ik_loop (3, 1) 0.1 ?a 100 ?s8 = Inr (?s8\<lparr>reached_target := R, arr := A, fresh := F\<rparr>)
      \<and> length (A ?a) = length (arr ?s8 ?a)
      \<and> fresh ?s8 \<le> F
      \<and> (\<forall>r<fresh ?s8. r \<noteq> ?a \<longrightarrow> A r = arr ?s8 r)
      \<and> (0 < (100::nat) \<longrightarrow> R \<longrightarrow>
            distance_to_target (num_links ?s8) (link_lengths ?s8) (3, 1) (A ?a) < 0.1)"
    by (intro ik_loop_ok) simp_all
  then obtain R A F where
    run: "ik_loop (3, 1) 0.1 ?a 100 ?s8 = Inr (?s8\<lparr>reached_target := R, arr := A, fresh := F\<rparr>)"
    and len: "length (A ?a) = val"
    and conv: "R \<longrightarrow> distance_to_target val ?ll (3, 1) (A ?a) < 0.1"
    by auto
  have ik: "inverse_kinematics (Some (3, 1)) ?a 0.1 100 ?s7 =
      Inr (?a, ?s8\<lparr>reached_target := R, arr := A, fresh := F\<rparr>)"
    using run by (simp add: inverse_kinematics_def optimize_link_lengths_def)
  have fk: "forward_kinematics val ?ll (A ?a) =
      Inr (map (joint_x ?ll (A ?a)) [0..<Suc val], map (joint_y ?ll (A ?a)) [0..<Suc val])"
    by (intro forward_kinematics_closed) simp
  have "update 0 ?s7 =
      Inr (?s8\<lparr>reached_target := R, arr := A, fresh := F, movement_count := 1\<rparr>,
           map (joint_x ?ll (A ?a)) [0..<Suc val], map (joint_y ?ll (A ?a)) [0..<Suc val])"
    using ik fk by (simp add: update_def del: upt_Suc)
  then have "update_num_links val s =
       Inr (s\<lparr>num_links := val, link_lengths := ?ll, angles := ?a, target := (3, 1),
              reached_target := R, movement_count := 1, arr := A, fresh := F\<rparr>)"
    by (simp add: update_num_links_def ndarray_new_def del: upt_Suc)
  with len conv show ?thesis by blast
qed

section \<open>The claims\<close>

subsection \<open>Forward kinematics\<close>

text \<open>
  Claim C2. With one link length per joint, forward kinematics raises nothing and
  returns \<open>N + 1\<close> x-coordinates and \<open>N + 1\<close> y-coordinates; the first position is
  \<open>(0, 0)\<close>, and position \<open>k + 1\<close> is position \<open>k\<close> plus the \<open>k\<close>-th link length
  times the cosine and sine of the sum of the angles \<open>0..k\<close>. The statement holds
  for every joint count \<open>N\<close>, in particular for 2, 3, 4 and 5, and for an angle
  vector of any length (the slice \<open>angles[:k+1]\<close> is \<open>take (k + 1)\<close>).
\<close>

theorem forward_kinematics_positions:
  assumes "length ll = N"
  shows "\<exists>x y. forward_kinematics N ll angs = Inr (x, y)
     \<and> length x = N + 1 \<and> length y = N + 1
     \<and> x ! 0 = 0 \<and> y ! 0 = 0
     \<and> (\<forall>k<N. x ! (k + 1) = x ! k + ll ! k * cos (sum_list (take (k + 1) angs))
             \<and> y ! (k + 1) = y ! k + ll ! k * sin (sum_list (take (k + 1) angs)))"
proof -
  let ?x = "map (joint_x ll angs) [0..<Suc N]"
  let ?y = "map (joint_y ll angs) [0..<Suc N]"
  have run: "forward_kinematics N ll angs = Inr (?x, ?y)"
    using assms by (intro forward_kinematics_closed) simp
  have nth_x: "?x ! k = joint_x ll angs k" if "k \<le> N" for k
    using that nth_map_upt[of k "Suc N" 0 "joint_x ll angs"] by simp
  have nth_y: "?y ! k = joint_y ll angs k" if "k \<le> N" for k
    using that nth_map_upt[of k "Suc N" 0 "joint_y ll angs"] by simp
  have step: "?x ! (k + 1) = ?x ! k + ll ! k * cos (sum_list (take (k + 1) angs))
      \<and> ?y ! (k + 1) = ?y ! k + ll ! k * sin (sum_list (take (k + 1) angs))" if "k < N" for k
    using that nth_x[of k] nth_x[of "Suc k"] nth_y[of k] nth_y[of "Suc k"] by simp
  have "length ?x = N + 1" "length ?y = N + 1" by simp_all
  moreover have "?x ! 0 = 0" "?y ! 0 = 0"
    using nth_x[of 0] nth_y[of 0] by simp_all
  ultimately show ?thesis using run step by blast
qed

text \<open>
  The two-link arm of the notebook's first cell, both joints at 45 degrees.
\<close>

theorem forward_kinematics_positions_witness:
  "\<exists>x y. forward_kinematics 2 [2, 2] [radians 45, radians 45] = Inr (x, y)
     \<and> length x = 3 \<and> length y = 3 \<and> x ! 0 = 0 \<and> y ! 0 = 0
     \<and> x ! 1 = x ! 0 + 2 * cos (radians 45) \<and> y ! 1 = y ! 0 + 2 * sin (radians 45)
     \<and> x ! 2 = x ! 1 + 2 * cos (radians 45 + radians 45)
     \<and> y ! 2 = y ! 1 + 2 * sin (radians 45 + radians 45)"
proof -
  have h: "length [2, 2 :: real] = 2" by simp
  from forward_kinematics_positions[OF h, of "[radians 45, radians 45]"]
  obtain x y where run: "forward_kinematics 2 [2, 2] [radians 45, radians 45] = Inr (x, y)"
    and len: "length x = 2 + 1" "length y = 2 + 1" and z: "x ! 0 = 0" "y ! 0 = 0"
    and st: "\<forall>k<2. x ! (k + 1) = x ! k + [2, 2] ! k * cos (sum_list (take (k + 1) [radians 45, radians 45]))
             \<and> y ! (k + 1) = y ! k + [2, 2] ! k * sin (sum_list (take (k + 1) [radians 45, radians 45]))"
    by blast
  have "(0::nat) < 2" "(1::nat) < 2" by simp_all
  from st[rule_format, OF this(1)] st[rule_format, OF this(2)]
  have "x ! 1 = x ! 0 + 2 * cos (radians 45)" "y ! 1 = y ! 0 + 2 * sin (radians 45)"
    "x ! 2 = x ! 1 + 2 * cos (radians 45 + radians 45)"
    "y ! 2 = y ! 1 + 2 * sin (radians 45 + radians 45)"
    by (simp_all add: numeral_2_eq_2)
  with run len z show ?thesis by simp
qed

subsection \<open>Link-length adaptation\<close>

text \<open>
  Claim C3. For every target \<open>T\<close> and every positive joint count \<open>N\<close>, link-length
  adaptation returns exactly \<open>N\<close> values, each equal to the Euclidean norm of \<open>T\<close>
  divided by \<open>N\<close>; their sum is the norm of \<open>T\<close> (exactly, over the reals).
\<close>

theorem optimize_link_lengths_equal_share:
  assumes "0 < N"
  shows "length (optimize_link_lengths N T angs) = N
     \<and> (\<forall>l \<in> set (optimize_link_lengths N T angs). l = linalg_norm T / real N)
     \<and> sum_list (optimize_link_lengths N T angs) = linalg_norm T"
  using assms by (simp add: optimize_link_lengths_def sum_list_replicate)

text \<open>
  Two joints and the target \<open>(2, 0)\<close>: two links of length 1.
\<close>

theorem optimize_link_lengths_equal_share_witness:
  "length (optimize_link_lengths 2 (2, 0) [0, 0]) = 2
     \<and> list_all (\<lambda>l. l = 1) (optimize_link_lengths 2 (2, 0) [0, 0])
     \<and> sum_list (optimize_link_lengths 2 (2, 0) [0, 0]) = 2"
proof -
  have n: "linalg_norm (2, 0) = 2" by (simp add: linalg_norm_def)
  have h: "(0::nat) < 2" by simp
  from optimize_link_lengths_equal_share[OF h, of "(2, 0)" "[0, 0]"] n
  show ?thesis by (simp add: list_all_iff)
qed

text \<open>
  Claim C8. For the target \<open>(0, 0)\<close> and any joint count \<open>N\<close> (so for 2, 3, 4
  and 5), link-length adaptation returns \<open>N\<close> zeros, and forward kinematics under
  these link lengths raises nothing and puts all \<open>N + 1\<close> joint positions at
  \<open>(0, 0)\<close>, whatever the angles.
\<close>

theorem origin_target_degenerate:
  "optimize_link_lengths N (0, 0) angs = replicate N 0
   \<and> forward_kinematics N (optimize_link_lengths N (0, 0) angs) angs =
       Inr (replicate (N + 1) 0, replicate (N + 1) 0)"
proof -
  have opt: "optimize_link_lengths N (0, 0) angs = replicate N 0"
    by (simp add: optimize_link_lengths_def linalg_norm_def)
  have "forward_kinematics N (replicate N 0) angs =
      Inr (map (joint_x (replicate N 0) angs) [0..<Suc N], map (joint_y (replicate N 0) angs) [0..<Suc N])"
    by (intro forward_kinematics_closed) simp
  moreover have "map (joint_x (replicate N 0) angs) [0..<Suc N] = replicate (Suc N) 0"
    by (intro map_const_upt) (simp add: joint_zero_links)
  moreover have "map (joint_y (replicate N 0) angs) [0..<Suc N] = replicate (Suc N) 0"
    by (intro map_const_upt) (simp add: joint_zero_links)
  ultimately show ?thesis using opt by simp
qed

text \<open>
  Two joints at 45 degrees.
\<close>

theorem origin_target_degenerate_witness:
  "optimize_link_lengths 2 (0, 0) [radians 45, radians 45] = [0, 0]
   \<and> forward_kinematics 2 (optimize_link_lengths 2 (0, 0) [radians 45, radians 45])
        [radians 45, radians 45] = Inr ([0, 0, 0], [0, 0, 0])"
  using origin_target_degenerate[of 2 "[radians 45, radians 45]"]
  by (auto simp: numeral_2_eq_2)

subsection \<open>The solver without a target\<close>

text \<open>
  Claim C6. Without a target the solver returns the reference it was given and
  leaves the whole state as it was: no array of the store is modified,
  \<open>link_lengths\<close> is not recomputed, \<open>reached_target\<close> keeps its value, and no
  exception is raised.
\<close>

theorem inverse_kinematics_no_target:
  "inverse_kinematics None a alpha max_iters s = Inr (a, s)"
  by (simp add: inverse_kinematics_def)

text \<open>
  The call at the seeking configuration.
\<close>

theorem inverse_kinematics_no_target_witness:
  "inverse_kinematics None 0 0.1 100 seeking_state = Inr (0, seeking_state)"
  by (rule inverse_kinematics_no_target)

subsection \<open>One iteration of the joint loop\<close>

text \<open>
  Claim C1 says that in a non-converged iteration every joint \<open>i\<close> is estimated
  with all other joints at their start-of-iteration values, by the quotient
  (perturbed distance minus unperturbed distance) / 0.01, and is then decreased by
  the step size times that quotient. The code does so for joint 0 only. For a
  later joint the copy that is perturbed already holds the new values of the
  earlier joints, which were written in place, while the distance that is
  subtracted is still \<open>norm(error)\<close> from the start of the iteration: the quotient
  the code calls \<open>gradient\<close> compares the distances of two different
  configurations. The theorem evaluates one iteration at the seeking
  configuration (two unit links, target \<open>(2, 0)\<close>, angles \<open>[pi / 2, -0.01]\<close>, step
  size 0.1). The iteration does not break, and the new angle of joint 1 is
  neither its start value minus 0.1 times the difference quotient at the
  start-of-iteration configuration, as the claim has it, nor its start value minus
  0.1 times the difference quotient at the current configuration, in which joint 0
  has its new value. The first of the two also holds of a call of the solver
  limited to one iteration.
\<close>

theorem ik_iteration_start_values_counterexample:
  "\<not> isl (ik_iteration (2, 0) 0.1 0 seeking_state)
   \<and> \<not> fst (projr (ik_iteration (2, 0) 0.1 0 seeking_state))
   \<and> arr (snd (projr (ik_iteration (2, 0) 0.1 0 seeking_state))) 0 ! 1 \<noteq>
       arr seeking_state 0 ! 1 - 0.1 *
         ((distance_to_target 2 [1, 1] (2, 0)
             ((arr seeking_state 0)[1 := arr seeking_state 0 ! 1 + 0.01])
           - distance_to_target 2 [1, 1] (2, 0) (arr seeking_state 0)) / 0.01)
   \<and> arr (snd (projr (ik_iteration (2, 0) 0.1 0 seeking_state))) 0 ! 1 \<noteq>
       arr seeking_state 0 ! 1 - 0.1 *
         ((distance_to_target 2 [1, 1] (2, 0)
             [arr (snd (projr (ik_iteration (2, 0) 0.1 0 seeking_state))) 0 ! 0,
              arr seeking_state 0 ! 1 + 0.01]
           - distance_to_target 2 [1, 1] (2, 0)
             [arr (snd (projr (ik_iteration (2, 0) 0.1 0 seeking_state))) 0 ! 0,
              arr seeking_state 0 ! 1]) / 0.01)
   \<and> \<not> isl (inverse_kinematics (Some (2, 0)) 0 0.1 1 seeking_state)
   \<and> arr (snd (projr (inverse_kinematics (Some (2, 0)) 0 0.1 1 seeking_state))) 0 ! 1 \<noteq>
       arr seeking_state 0 ! 1 - 0.1 *
         ((distance_to_target 2 [1, 1] (2, 0)
             ((arr seeking_state 0)[1 := arr seeking_state 0 ! 1 + 0.01])
           - distance_to_target 2 [1, 1] (2, 0) (arr seeking_state 0)) / 0.01)"
proof -
  from seeking_state_iteration obtain s' where
    run: "ik_iteration (2, 0) 0.1 0 seeking_state = Inr (False, s')"
    and new: "arr s' 0 =
         [pi / 2 - 0.1 * gradient0,
          - (1 / 100) - 0.1 *
            ((distance_to_target 2 [1, 1] (2, 0) [pi / 2 - 0.1 * gradient0, 0] - dist_at_start)
              / 0.01)]"
    by blast
  have old: "arr seeking_state 0 = [pi / 2, - (1 / 100)]"
    by (simp add: seeking_state_def)
  have opt: "seeking_state\<lparr>link_lengths :=
      optimize_link_lengths (num_links seeking_state) (2, 0) (arr seeking_state 0)\<rparr> =
      seeking_state"
    by (simp add: seeking_state_def optimize_link_lengths_2_0)
  have call: "inverse_kinematics (Some (2, 0)) 0 0.1 (Suc 0) seeking_state = Inr (0, s')"
    using run by (simp add: inverse_kinematics_def opt)
  have start: "arr s' 0 ! 1 \<noteq> - (1 / 100) - 0.1 *
         ((distance_to_target 2 [1, 1] (2, 0) [pi / 2, 0] - dist_at_start) / 0.01)"
    using distance_joint1_differs by (simp add: new)
  have current: "arr s' 0 ! 1 \<noteq> - (1 / 100) - 0.1 *
         ((distance_to_target 2 [1, 1] (2, 0) [pi / 2 - 0.1 * gradient0, 0]
           - distance_to_target 2 [1, 1] (2, 0) [pi / 2 - 0.1 * gradient0, - (1 / 100)]) / 0.01)"
    using distance_current_baseline_differs by (simp add: new)
  have new0: "arr s' 0 ! 0 = pi / 2 - 0.1 * gradient0"
    by (simp add: new)
  from start current show ?thesis
    by (simp add: run call old seeking_state_distance new0)
qed

subsection \<open>The perturbation and the angle array\<close>

text \<open>
  Claim C9. The 0.01 perturbation never persists. First part, one joint:
  processing joint \<open>i\<close> allocates a new array (the reference \<open>fresh s\<close>, different
  from the angle array's reference \<open>a\<close>), the perturbed configuration is the
  content of that new array, the angle array changes in entry \<open>i\<close> only, by the
  subtraction of \<open>alpha\<close> times the quotient, and every other array is left as it
  was. Second part, a whole call of the solver with a target, for any step size
  and any number of iterations: the call raises nothing and returns the reference
  it was given; the angle array it leaves is \<open>angles_after_loop\<close> of the angle array
  it found, that is, the result of the subtractions of step size times quotient
  from single entries and of nothing else; with step size 0 the angles are
  therefore returned as they were; and every array that existed before the call,
  other than the angle array, holds what it held, so that every perturbed copy is
  an array of its own.
\<close>

theorem inverse_kinematics_perturbs_copy_only:
  "(a < fresh s \<and> i < length (arr s a) \<and> num_links s \<le> length (link_lengths s) \<longrightarrow>
      (\<exists>s'. joint_update tgt alpha error a i s = Inr s'
         \<and> arr s' a = (arr s a)[i := arr s a ! i - alpha *
              ((distance_to_target (num_links s) (link_lengths s) tgt
                  ((arr s a)[i := arr s a ! i + 0.01]) - linalg_norm error) / 0.01)]
         \<and> arr s' (fresh s) = (arr s a)[i := arr s a ! i + 0.01]
         \<and> fresh s \<noteq> a
         \<and> (\<forall>r. r \<noteq> a \<and> r \<noteq> fresh s \<longrightarrow> arr s' r = arr s r)))
   \<and> (a < fresh s \<and> num_links s \<le> length (arr s a) \<longrightarrow>
      (\<exists>s'. inverse_kinematics (Some tgt) a alpha max_iters s = Inr (a, s')
         \<and> arr s' a = angles_after_loop (num_links s)
                         (optimize_link_lengths (num_links s) tgt (arr s a)) tgt alpha max_iters
                         (arr s a)
         \<and> (alpha = 0 \<longrightarrow> arr s' a = arr s a)
         \<and> (\<forall>r<fresh s. r \<noteq> a \<longrightarrow> arr s' r = arr s r)))"
proof (intro conjI impI)
  assume h: "a < fresh s \<and> i < length (arr s a) \<and> num_links s \<le> length (link_lengths s)"
  then have ne: "fresh s \<noteq> a" by simp
  from h have upd: "joint_update tgt alpha error a i s =
     Inr (s\<lparr>arr := (arr s)(fresh s := (arr s a)[i := arr s a ! i + 0.01],
                           a := (arr s a)[i := arr s a ! i - alpha *
                                  finite_difference (num_links s) (link_lengths s) tgt (arr s a) i
                                    (linalg_norm error)]),
            fresh := Suc (fresh s)\<rparr>)"
    by (intro joint_update_ok) simp_all
  show "\<exists>s'. joint_update tgt alpha error a i s = Inr s'
         \<and> arr s' a = (arr s a)[i := arr s a ! i - alpha *
              ((distance_to_target (num_links s) (link_lengths s) tgt
                  ((arr s a)[i := arr s a ! i + 0.01]) - linalg_norm error) / 0.01)]
         \<and> arr s' (fresh s) = (arr s a)[i := arr s a ! i + 0.01]
         \<and> fresh s \<noteq> a
         \<and> (\<forall>r. r \<noteq> a \<and> r \<noteq> fresh s \<longrightarrow> arr s' r = arr s r)"
    using ne by (simp add: upd finite_difference_def)
next
  assume h: "a < fresh s \<and> num_links s \<le> length (arr s a)"
  then have "\<exists>s'. inverse_kinematics (Some tgt) a alpha max_iters s = Inr (a, s')
     \<and> arr s' a = angles_after_loop (num_links s)
                     (optimize_link_lengths (num_links s) tgt (arr s a)) tgt alpha max_iters
                     (arr s a)
     \<and> (\<forall>r<fresh s. r \<noteq> a \<longrightarrow> arr s' r = arr s r)"
    by (intro inverse_kinematics_refines) simp_all
  then obtain s' where
    run: "inverse_kinematics (Some tgt) a alpha max_iters s = Inr (a, s')"
    and ref: "arr s' a = angles_after_loop (num_links s)
                     (optimize_link_lengths (num_links s) tgt (arr s a)) tgt alpha max_iters
                     (arr s a)"
    and frame: "\<forall>r<fresh s. r \<noteq> a \<longrightarrow> arr s' r = arr s r"
    by blast
  have zero: "alpha = 0 \<longrightarrow> arr s' a = arr s a"
    using ref by (simp add: angles_after_loop_zero_step)
  from run ref zero frame
  show "\<exists>s'. inverse_kinematics (Some tgt) a alpha max_iters s = Inr (a, s')
         \<and> arr s' a = angles_after_loop (num_links s)
                         (optimize_link_lengths (num_links s) tgt (arr s a)) tgt alpha max_iters
                         (arr s a)
         \<and> (alpha = 0 \<longrightarrow> arr s' a = arr s a)
         \<and> (\<forall>r<fresh s. r \<noteq> a \<longrightarrow> arr s' r = arr s r)"
    by blast
qed

text \<open>
  Joint 1 of the seeking configuration: the angle array keeps \<open>pi / 2\<close> in entry 0
  and receives the descent step in entry 1, the perturbed vector \<open>[pi / 2, 0]\<close> is
  the content of the new array at reference 1, and reference 2 holds what it held
  before. A default call from the seeking configuration with a second array
  \<open>[42]\<close> at reference 1 leaves that array alone and the angles as the plain-list
  arithmetic gives them; a call with step size 0 returns the angles unchanged.
\<close>

theorem inverse_kinematics_perturbs_copy_only_witness:
  "(\<exists>s'. joint_update (2, 0) 0.1 (2, 0) 0 1 seeking_state = Inr s'
      \<and> arr s' 0 = [pi / 2, - (1 / 100) - 0.1 *
           ((distance_to_target 2 [1, 1] (2, 0) [pi / 2, 0] - linalg_norm (2, 0)) / 0.01)]
      \<and> arr s' 1 = [pi / 2, 0]
      \<and> arr s' 2 = arr seeking_state 2)
   \<and> (\<exists>s'. inverse_kinematics (Some (2, 0)) 0 0.1 100
              (seeking_state\<lparr>arr := (arr seeking_state)(1 := [42]), fresh := 2\<rparr>) = Inr (0, s')
      \<and> arr s' 0 = angles_after_loop 2 [1, 1] (2, 0) 0.1 100 [pi / 2, - (1 / 100)]
      \<and> arr s' 1 = [42])
   \<and> (\<exists>s'. inverse_kinematics (Some (2, 0)) 0 0 100 seeking_state = Inr (0, s')
      \<and> arr s' 0 = [pi / 2, - (1 / 100)])"
proof -
  let ?s2 = "seeking_state\<lparr>arr := (arr seeking_state)(1 := [42]), fresh := 2\<rparr>"
  have h1: "(0::nat) < fresh seeking_state \<and> 1 < length (arr seeking_state 0)
      \<and> num_links seeking_state \<le> length (link_lengths seeking_state)"
    by (simp add: seeking_state_def)
  have h2: "(0::nat) < fresh ?s2 \<and> num_links ?s2 \<le> length (arr ?s2 0)"
    by (simp add: seeking_state_def)
  have h3: "(0::nat) < fresh seeking_state \<and> num_links seeking_state \<le> length (arr seeking_state 0)"
    by (simp add: seeking_state_def)
  from inverse_kinematics_perturbs_copy_only[of 0 seeking_state 1 "(2, 0)" "0.1" "(2, 0)" 100] h1
  have p1: "\<exists>s'. joint_update (2, 0) 0.1 (2, 0) 0 1 seeking_state = Inr s'
      \<and> arr s' 0 = [pi / 2, - (1 / 100) - 0.1 *
           ((distance_to_target 2 [1, 1] (2, 0) [pi / 2, 0] - linalg_norm (2, 0)) / 0.01)]
      \<and> arr s' 1 = [pi / 2, 0]
      \<and> arr s' 2 = arr seeking_state 2"
    by (auto simp: seeking_state_def)
  from inverse_kinematics_perturbs_copy_only[of 0 ?s2 0 "(2, 0)" "0.1" "(2, 0)" 100] h2
  have p2: "\<exists>s'. inverse_kinematics (Some (2, 0)) 0 0.1 100 ?s2 = Inr (0, s')
      \<and> arr s' 0 = angles_after_loop 2 [1, 1] (2, 0) 0.1 100 [pi / 2, - (1 / 100)]
      \<and> arr s' 1 = [42]"
    by (auto simp: seeking_state_def optimize_link_lengths_2_0)
  from inverse_kinematics_perturbs_copy_only[of 0 seeking_state 0 "(2, 0)" 0 "(2, 0)" 100] h3
  have p3: "\<exists>s'. inverse_kinematics (Some (2, 0)) 0 0 100 seeking_state = Inr (0, s')
      \<and> arr s' 0 = [pi / 2, - (1 / 100)]"
    by (auto simp: seeking_state_def)
  from p1 p2 p3 show ?thesis by blast
qed

subsection \<open>The solver as a whole\<close>

text \<open>
  Claim C10. For an allocated angle array with one angle per joint, the solver
  returns (with or without a target, for any step size and any number of
  iterations) without an exception, returns the reference it was given, and the
  array has as many entries afterwards as before.
\<close>

theorem inverse_kinematics_preserves_length:
  assumes "a < fresh s" "length (arr s a) = num_links s"
  shows "\<exists>s'. inverse_kinematics tgt a alpha max_iters s = Inr (a, s')
     \<and> length (arr s' a) = length (arr s a)"
proof (cases tgt)
  case None
  then show ?thesis by (simp add: inverse_kinematics_def)
next
  case (Some t)
  let ?s = "s\<lparr>link_lengths := optimize_link_lengths (num_links s) t (arr s a)\<rparr>"
  have "\<exists>R A F. ik_loop t alpha a max_iters ?s = Inr (?s\<lparr>reached_target := R, arr := A, fresh := F\<rparr>)
      \<and> length (A a) = length (arr ?s a)
      \<and> fresh ?s \<le> F
      \<and> (\<forall>r<fresh ?s. r \<noteq> a \<longrightarrow> A r = arr ?s r)
      \<and> (0 < max_iters \<longrightarrow> R \<longrightarrow>
            distance_to_target (num_links ?s) (link_lengths ?s) t (A a) < 0.1)"
    using assms by (intro ik_loop_ok) (simp_all add: optimize_link_lengths_length)
  then obtain R A F where
    "ik_loop t alpha a max_iters ?s = Inr (?s\<lparr>reached_target := R, arr := A, fresh := F\<rparr>)"
    "length (A a) = length (arr s a)"
    by auto
  then show ?thesis using Some by (simp add: inverse_kinematics_def)
qed

text \<open>
  A default call (step size 0.1, 100 iterations) from the seeking configuration.
\<close>

theorem inverse_kinematics_preserves_length_witness:
  "\<exists>s'. inverse_kinematics (Some (2, 0)) 0 0.1 100 seeking_state = Inr (0, s')
     \<and> length (arr s' 0) = 2"
proof -
  have h: "(0::nat) < fresh seeking_state" "length (arr seeking_state 0) = num_links seeking_state"
    by (simp_all add: seeking_state_def)
  from inverse_kinematics_preserves_length[OF h, of "Some (2, 0)" "0.1" 100]
  show ?thesis by (auto simp: seeking_state_def)
qed

text \<open>
  Claim C5. First part: when an iteration starts with the end effector closer than
  0.1 to the target, the iteration sets \<open>reached_target\<close> and breaks, and the loop
  returns at once, whatever number of iterations remains; the state it returns is
  the state at the start of the iteration with the flag set, so no array has been
  touched. Second part: a call with a target that runs at least one iteration
  returns without an exception, and if \<open>reached_target\<close> is true on return, the
  end effector of the returned angles, under the link lengths the call has set, is
  closer than 0.1 to the target.
\<close>

theorem inverse_kinematics_early_exit:
  "(num_links s \<le> length (link_lengths s)
      \<and> distance_to_target (num_links s) (link_lengths s) t (arr s a) < 0.1 \<longrightarrow>
        ik_iteration t alpha a s = Inr (True, s\<lparr>reached_target := True\<rparr>)
      \<and> ik_loop t alpha a (Suc n) s = Inr (s\<lparr>reached_target := True\<rparr>))
   \<and> (a < fresh s \<and> num_links s \<le> length (arr s a) \<and> 0 < max_iters \<longrightarrow>
        (\<exists>s'. inverse_kinematics (Some t) a alpha max_iters s = Inr (a, s')
           \<and> (reached_target s' \<longrightarrow>
                distance_to_target (num_links s') (link_lengths s') t (arr s' a) < 0.1)))"
proof (intro conjI impI)
  assume h: "num_links s \<le> length (link_lengths s)
      \<and> distance_to_target (num_links s) (link_lengths s) t (arr s a) < 0.1"
  then show it: "ik_iteration t alpha a s = Inr (True, s\<lparr>reached_target := True\<rparr>)"
    by (intro ik_iteration_break) simp_all
  then show "ik_loop t alpha a (Suc n) s = Inr (s\<lparr>reached_target := True\<rparr>)"
    by simp
next
  assume h: "a < fresh s \<and> num_links s \<le> length (arr s a) \<and> 0 < max_iters"
  let ?s = "s\<lparr>link_lengths := optimize_link_lengths (num_links s) t (arr s a)\<rparr>"
  have "\<exists>R A F. ik_loop t alpha a max_iters ?s = Inr (?s\<lparr>reached_target := R, arr := A, fresh := F\<rparr>)
      \<and> length (A a) = length (arr ?s a)
      \<and> fresh ?s \<le> F
      \<and> (\<forall>r<fresh ?s. r \<noteq> a \<longrightarrow> A r = arr ?s r)
      \<and> (0 < max_iters \<longrightarrow> R \<longrightarrow>
            distance_to_target (num_links ?s) (link_lengths ?s) t (A a) < 0.1)"
    using h by (intro ik_loop_ok) (simp_all add: optimize_link_lengths_length)
  then obtain R A F where
    run: "ik_loop t alpha a max_iters ?s = Inr (?s\<lparr>reached_target := R, arr := A, fresh := F\<rparr>)"
    and conv: "R \<longrightarrow> distance_to_target (num_links ?s) (link_lengths ?s) t (A a) < 0.1"
    using h by auto
  show "\<exists>s'. inverse_kinematics (Some t) a alpha max_iters s = Inr (a, s')
           \<and> (reached_target s' \<longrightarrow>
                distance_to_target (num_links s') (link_lengths s') t (arr s' a) < 0.1)"
    using run conv by (simp add: inverse_kinematics_def)
qed

text \<open>
  The stretched configuration with the flag still false: the first iteration
  breaks, the call returns the converged state, its flag is true and its end
  effector is within tolerance.
\<close>

theorem inverse_kinematics_early_exit_witness:
  "ik_iteration (2, 0) 0.1 0 (converged_state\<lparr>reached_target := False\<rparr>) =
      Inr (True, converged_state)
   \<and> ik_loop (2, 0) 0.1 0 100 (converged_state\<lparr>reached_target := False\<rparr>) = Inr converged_state
   \<and> (\<exists>s'. inverse_kinematics (Some (2, 0)) 0 0.1 100 (converged_state\<lparr>reached_target := False\<rparr>)
            = Inr (0, s')
         \<and> reached_target s'
         \<and> distance_to_target (num_links s') (link_lengths s') (2, 0) (arr s' 0) < 0.1)"
proof -
  let ?s = "converged_state\<lparr>reached_target := False\<rparr>"
  have flag: "?s\<lparr>reached_target := True\<rparr> = converged_state"
    by (simp add: converged_state_def)
  have h1: "num_links ?s \<le> length (link_lengths ?s)
      \<and> distance_to_target (num_links ?s) (link_lengths ?s) (2, 0) (arr ?s 0) < 0.1"
    by (simp add: converged_state_def distance_straight)
  have h2: "0 < fresh ?s \<and> num_links ?s \<le> length (arr ?s 0) \<and> (0::nat) < 100"
    by (simp add: converged_state_def)
  have opt: "?s\<lparr>link_lengths := optimize_link_lengths (num_links ?s) (2, 0) (arr ?s 0)\<rparr> = ?s"
    by (simp add: converged_state_def optimize_link_lengths_2_0)
  note inst = inverse_kinematics_early_exit[of ?s "(2, 0)" 0 "0.1" 99 100]
  from inst h1 have it: "ik_iteration (2, 0) 0.1 0 ?s = Inr (True, converged_state)"
    and lp: "ik_loop (2, 0) 0.1 0 (Suc 99) ?s = Inr converged_state"
    by (simp_all only: flag)
  from lp have lp': "ik_loop (2, 0) 0.1 0 100 ?s = Inr converged_state"
    by (simp only: eval_nat_numeral) simp
  have run: "inverse_kinematics (Some (2, 0)) 0 0.1 100 ?s = Inr (0, converged_state)"
    using lp' opt by (simp add: inverse_kinematics_def)
  from inst h2 obtain s' where
    eq: "inverse_kinematics (Some (2, 0)) 0 0.1 100 ?s = Inr (0, s')"
    and conv: "reached_target s' \<longrightarrow>
                distance_to_target (num_links s') (link_lengths s') (2, 0) (arr s' 0) < 0.1"
    by blast
  from eq run have s': "s' = converged_state" by simp
  have r: "reached_target converged_state" by (simp add: converged_state_def)
  from conv r have "distance_to_target (num_links converged_state) (link_lengths converged_state)
       (2, 0) (arr converged_state 0) < 0.1"
    unfolding s' by blast
  with r
  have "reached_target converged_state
     \<and> distance_to_target (num_links converged_state) (link_lengths converged_state) (2, 0)
       (arr converged_state 0) < 0.1"
    by blast
  with it lp' run show ?thesis by blast
qed

text \<open>
  Claim C4. If \<open>reached_target\<close> is true and the end effector is closer than 0.1 to
  the target under the link lengths adapted to that target, a further call of the
  solver, with any step size and any iteration count, returns the same reference
  and leaves every array (hence every joint angle) and the flag unchanged. The
  only field the call assigns is \<open>link_lengths\<close>, with the value adapted to the
  target; when the target is unchanged since the last call, that is the value the
  field already has, and the state is returned as it was.
\<close>

theorem inverse_kinematics_idempotent_when_reached:
  assumes "reached_target s"
    and "distance_to_target (num_links s) (optimize_link_lengths (num_links s) t (arr s a)) t
           (arr s a) < 0.1"
  shows "\<exists>s'. inverse_kinematics (Some t) a alpha max_iters s = Inr (a, s')
     \<and> arr s' = arr s
     \<and> reached_target s' = reached_target s
     \<and> s' = s\<lparr>link_lengths := optimize_link_lengths (num_links s) t (arr s a)\<rparr>"
proof -
  let ?s = "s\<lparr>link_lengths := optimize_link_lengths (num_links s) t (arr s a)\<rparr>"
  have "ik_loop t alpha a max_iters ?s = Inr ?s"
  proof (cases max_iters)
    case 0
    then show ?thesis by simp
  next
    case (Suc n)
    have "ik_iteration t alpha a ?s = Inr (True, ?s\<lparr>reached_target := True\<rparr>)"
      using assms(2) by (intro ik_iteration_break) (simp_all add: optimize_link_lengths_length)
    moreover have "?s\<lparr>reached_target := True\<rparr> = ?s"
      using assms(1) by simp
    ultimately show ?thesis using Suc by simp
  qed
  then show ?thesis by (simp add: inverse_kinematics_def)
qed

text \<open>
  A second default call on the converged state returns that very state.
\<close>

theorem inverse_kinematics_idempotent_when_reached_witness:
  "reached_target converged_state
   \<and> inverse_kinematics (Some (2, 0)) 0 0.1 100 converged_state = Inr (0, converged_state)"
proof -
  have h: "reached_target converged_state"
    "distance_to_target (num_links converged_state)
       (optimize_link_lengths (num_links converged_state) (2, 0) (arr converged_state 0)) (2, 0)
       (arr converged_state 0) < 0.1"
    by (simp_all add: converged_state_def optimize_link_lengths_2_0 distance_straight)
  have "converged_state\<lparr>link_lengths :=
      optimize_link_lengths (num_links converged_state) (2, 0) (arr converged_state 0)\<rparr> =
      converged_state"
    by (simp add: converged_state_def optimize_link_lengths_2_0)
  with inverse_kinematics_idempotent_when_reached[OF h, of "0.1" 100] h(1)
  show ?thesis by auto
qed

subsection \<open>Changing the number of joints\<close>

text \<open>
  Claim C7, as the code has it. Moving the slider from 2 to 4 joints resets the
  state (four joints, four links of length 2, a new angle array of four entries of
  45 degrees, the default target \<open>(3, 1)\<close>, the flag false, the counter 0) and
  then runs one tick from the reset state; the tick calls the solver and
  increments the counter. When the handler returns there are 4 joints, the angle
  array has exactly 4 entries, there are exactly 4 link lengths, all equal to a
  quarter of the distance from the origin to the target, the target is \<open>(3, 1)\<close>,
  and the movement counter is 1.
\<close>

theorem update_num_links_two_to_four:
  assumes "num_links s = 2"
  shows "\<exists>s' x y.
       update_num_links 4 s = Inr s'
     \<and> update 0 (s\<lparr>num_links := 4, link_lengths := replicate 4 2,
                     arr := (arr s)(fresh s := replicate 4 (radians 45)),
                     fresh := Suc (fresh s), angles := fresh s, target := (3, 1),
                     reached_target := False, movement_count := 0\<rparr>) = Inr (s', x, y)
     \<and> num_links s' = 4
     \<and> length (arr s' (angles s')) = 4
     \<and> link_lengths s' = replicate 4 (linalg_norm (3, 1) / 4)
     \<and> target s' = (3, 1)
     \<and> movement_count s' = 1"
proof -
  let ?reset = "s\<lparr>num_links := 4, link_lengths := replicate 4 2,
                     arr := (arr s)(fresh s := replicate 4 (radians 45)),
                     fresh := Suc (fresh s), angles := fresh s, target := (3, 1),
                     reached_target := False, movement_count := 0\<rparr>"
  from update_num_links_result[of 4 s] obtain R A F where
    res: "update_num_links 4 s =
       Inr (s\<lparr>num_links := 4,
              link_lengths := replicate 4 (linalg_norm (3, 1) / real 4),
              angles := fresh s, target := (3, 1), reached_target := R,
              movement_count := 1, arr := A, fresh := F\<rparr>)"
    and len: "length (A (fresh s)) = 4"
    by blast
  let ?s' = "s\<lparr>num_links := 4,
              link_lengths := replicate 4 (linalg_norm (3, 1) / real 4),
              angles := fresh s, target := (3, 1), reached_target := R,
              movement_count := 1, arr := A, fresh := F\<rparr>"
  have unfold: "update_num_links 4 s =
      (case update 0 ?reset of Inl e \<Rightarrow> Inl e | Inr (s', x, y) \<Rightarrow> Inr s')"
    by (simp add: update_num_links_def ndarray_new_def)
  have "\<exists>x y. update 0 ?reset = Inr (?s', x, y)"
    using res unfolding unfold by (auto split: sum.splits)
  then obtain x y where tick: "update 0 ?reset = Inr (?s', x, y)"
    by blast
  have props: "num_links ?s' = 4" "length (arr ?s' (angles ?s')) = 4"
    "link_lengths ?s' = replicate 4 (linalg_norm (3, 1) / 4)" "target ?s' = (3, 1)"
    "movement_count ?s' = 1"
    using len by simp_all
  from res tick props show ?thesis by blast
qed

text \<open>
  The slider moved to 4 in the notebook's initial state.
\<close>

theorem update_num_links_two_to_four_witness:
  "num_links initial_state = 2
   \<and> (\<exists>s'. update_num_links 4 initial_state = Inr s'
         \<and> num_links s' = 4
         \<and> length (arr s' (angles s')) = 4
         \<and> link_lengths s' = replicate 4 (linalg_norm (3, 1) / 4)
         \<and> target s' = (3, 1)
         \<and> movement_count s' = 1)"
proof -
  have h: "num_links initial_state = 2" by (simp add: initial_state_def)
  from update_num_links_two_to_four[OF h] h show ?thesis by blast
qed

text \<open>
  Claim C7 as stated fails: after the handler has run in the initial state, the
  movement counter is not 0.
\<close>

theorem update_num_links_counter_counterexample:
  "\<not> isl (update_num_links 4 initial_state)
   \<and> movement_count (projr (update_num_links 4 initial_state)) \<noteq> 0"
proof -
  from update_num_links_result[of 4 initial_state] obtain s' where
    "update_num_links 4 initial_state = Inr s'" "movement_count s' = 1"
    by auto
  then show ?thesis by simp
qed

end
